theory Spec2Isabelle
  imports Complex_Main
begin

section \<open>JavaScript strings\<close>

text \<open>
  A JavaScript string is a sequence of 16-bit code units. The model keeps the code units
  U+0000 .. U+00FF: a \<^typ>\<open>string\<close> is read as the list of those code units, one
  \<^typ>\<open>char\<close> each (ASCII and the Latin-1 supplement, which covers every literal of the
  source, the \<open>U+00FC\<close> of the venue \<open>Messe M\<dots>nchen\<close> included).
\<close>

text \<open>
  \<^verbatim>\<open>String.prototype.toLowerCase\<close>: on U+0000 .. U+00FF the Unicode lower-case mapping
  moves \<open>A\<close>..\<open>Z\<close> (65..90) and U+00C0 .. U+00DE without the multiplication sign U+00D7
  (192..222 without 215) up by 32 and leaves every other code unit alone.
\<close>

definition lowerChar :: "char \<Rightarrow> char" where
  "lowerChar c =
     (let n = (of_char c :: nat)
      in if (65 \<le> n \<and> n \<le> 90) \<or> (192 \<le> n \<and> n \<le> 222 \<and> n \<noteq> 215)
         then char_of (n + 32) else c)"

definition toLowerCase :: "string \<Rightarrow> string" where
  "toLowerCase s = map lowerChar s"

text \<open>
  \<^verbatim>\<open>String.prototype.trim\<close> removes leading and trailing white space and line
  terminators; below U+0100 these are TAB, LF, VT, FF, CR, SPACE and NBSP (U+00A0).
\<close>

definition isWhiteSpace :: "char \<Rightarrow> bool" where
  "isWhiteSpace c = ((of_char c :: nat) \<in> {9, 10, 11, 12, 13, 32, 160})"

definition trim :: "string \<Rightarrow> string" where
  "trim s = rev (dropWhile isWhiteSpace (rev (dropWhile isWhiteSpace s)))"

text \<open>\<^verbatim>\<open>s.includes(w)\<close>: \<open>w\<close> occurs in \<open>s\<close> as a contiguous run (case-sensitive).\<close>

fun startsWith :: "string \<Rightarrow> string \<Rightarrow> bool" where
  "startsWith s [] = True"
| "startsWith [] (c # cs) = False"
| "startsWith (x # xs) (c # cs) = (x = c \<and> startsWith xs cs)"

fun includesStr :: "string \<Rightarrow> string \<Rightarrow> bool" where
  "includesStr [] w = (w = [])"
| "includesStr (x # xs) w = (startsWith (x # xs) w \<or> includesStr xs w)"

text \<open>\<^verbatim>\<open>s.split(' ')[0]\<close>: the part of \<open>s\<close> before its first space (all of \<open>s\<close> if none).\<close>

definition firstWord :: "string \<Rightarrow> string" where
  "firstWord s = takeWhile (\<lambda>c. c \<noteq> CHR '' '') s"

text \<open>
  A value that JavaScript tests for truthiness where the model has a \<open>string option\<close>
  (\<open>None\<close> is \<^verbatim>\<open>undefined\<close>): \<^verbatim>\<open>undefined\<close> and the empty string are falsy.
\<close>

definition truthy :: "string option \<Rightarrow> bool" where
  "truthy v = (case v of None \<Rightarrow> False | Some s \<Rightarrow> s \<noteq> [])"

section \<open>Data model (types.ts)\<close>

datatype Country =
  Thailand | Malaysia | Singapore | Indonesia | Philippines | Vietnam
  | UAE | Germany | Australia | Europe

datatype Venue =
  Impact | Bitec | Qsncc
  | Klcc | Mitec | Spice | Pwcc
  | Expo | Mbs
  | Jcc | Jiexpo | Ice
  | Smx | WtcManila
  | Secc | IceHanoi
  | Dwtc
  | MesseFrankfurt | MesseBerlin | MesseMunchen | Koelnmesse
  | IccSydney | Mcec
  | FiraBarcelona | ParisNord | RaiAmsterdam

text \<open>
  \<^verbatim>\<open>CompanyInfo\<close>. The interface declares \<^verbatim>\<open>name: string\<close>, but the gateway builds
  companies from untyped backend records (\<^verbatim>\<open>name: ex.name\<close>), so the field can hold
  \<^verbatim>\<open>undefined\<close> at run time: \<open>None\<close>. \<open>email\<close> and \<open>contact\<close> are optional in the
  interface.
\<close>

record company =
  cname :: "string option"
  email :: "string option"
  contact :: "string option"
  role :: string

text \<open>Errors that the modelled code can raise.\<close>

datatype error =
  TypeError
  | ApiKeyMissing
  | BackendFailure string
  | NoEventsFound

section \<open>Deduplication and append (App.tsx, handleDeepSearchEvent)\<close>

text \<open>
  \<^verbatim>\<open>c.name.toLowerCase()\<close>: reading \<^verbatim>\<open>toLowerCase\<close> of \<^verbatim>\<open>undefined\<close> throws a
  \<^verbatim>\<open>TypeError\<close>.
\<close>

definition nameLower :: "company \<Rightarrow> error + string" where
  "nameLower c = (case cname c of None \<Rightarrow> Inl TypeError | Some n \<Rightarrow> Inr (toLowerCase n))"

text \<open>\<^verbatim>\<open>xs.map(f)\<close> for an \<open>f\<close> that may throw: the first exception ends the loop.\<close>

fun mapE :: "('a \<Rightarrow> error + 'b) \<Rightarrow> 'a list \<Rightarrow> error + 'b list" where
  "mapE f [] = Inr []"
| "mapE f (x # xs) =
     (case f x of
        Inl e \<Rightarrow> Inl e
      | Inr y \<Rightarrow> (case mapE f xs of Inl e \<Rightarrow> Inl e | Inr ys \<Rightarrow> Inr (y # ys)))"

text \<open>\<^verbatim>\<open>xs.filter(p)\<close> for a \<open>p\<close> that may throw.\<close>

fun filterE :: "('a \<Rightarrow> error + bool) \<Rightarrow> 'a list \<Rightarrow> error + 'a list" where
  "filterE p [] = Inr []"
| "filterE p (x # xs) =
     (case p x of
        Inl e \<Rightarrow> Inl e
      | Inr b \<Rightarrow> (case filterE p xs of
                   Inl e \<Rightarrow> Inl e
                 | Inr ys \<Rightarrow> Inr (if b then x # ys else ys)))"

text \<open>
  The body of the \<^verbatim>\<open>if (e.id === event.id)\<close> branch:
  \<^verbatim>\<open>
  const existingNames = new Set(e.companies.map(c => c.name.toLowerCase()));
  const newUnique = moreCompanies.filter(c => !existingNames.has(c.name.toLowerCase()));
  return { ...e, companies: [...e.companies, ...newUnique] };
  \<close>
  The function returns the new companies list.
\<close>

definition dedupAppend :: "company list \<Rightarrow> company list \<Rightarrow> error + company list" where
  "dedupAppend existing moreCompanies =
     (case mapE nameLower existing of
        Inl e \<Rightarrow> Inl e
      | Inr names \<Rightarrow>
          (let existingNames = set names
           in case filterE (\<lambda>c. case nameLower c of
                                   Inl e \<Rightarrow> Inl e
                                 | Inr n \<Rightarrow> Inr (n \<notin> existingNames)) moreCompanies of
                Inl e \<Rightarrow> Inl e
              | Inr newUnique \<Rightarrow> Inr (existing @ newUnique)))"

section \<open>Venues of a country (geminiService.ts, searchEventList)\<close>

text \<open>The string value of each member of the \<^verbatim>\<open>Venue\<close> enum.\<close>

fun venueText :: "Venue \<Rightarrow> string" where
  "venueText Impact = ''Impact Arena & Exhibition Center''"
| "venueText Bitec = ''BITEC Bangna''"
| "venueText Qsncc = ''Queen Sirikit National Convention Center (QSNCC)''"
| "venueText Klcc = ''Kuala Lumpur Convention Centre (KLCC)''"
| "venueText Mitec = ''MITEC''"
| "venueText Spice = ''Setia SPICE Convention Centre''"
| "venueText Pwcc = ''Penang Waterfront Convention Centre (PWCC)''"
| "venueText Expo = ''Singapore EXPO''"
| "venueText Mbs = ''Marina Bay Sands Convention Centre''"
| "venueText Jcc = ''Jakarta Convention Center''"
| "venueText Jiexpo = ''Jakarta International Expo (JIExpo)''"
| "venueText Ice = ''Indonesia Convention Exhibition (ICE BSD)''"
| "venueText Smx = ''SMX Convention Center''"
| "venueText WtcManila = ''World Trade Center Metro Manila''"
| "venueText Secc = ''Saigon Exhibition and Convention Center (SECC)''"
| "venueText IceHanoi = ''International Centre for Exhibition (I.C.E ) Hanoi''"
| "venueText Dwtc = ''Dubai World Trade Centre''"
| "venueText MesseFrankfurt = ''Messe Frankfurt''"
| "venueText MesseBerlin = ''Messe Berlin''"
| "venueText MesseMunchen = ''Messe M'' @ [char_of (252 :: nat)] @ ''nchen''"
| "venueText Koelnmesse = ''Koelnmesse''"
| "venueText IccSydney = ''ICC Sydney''"
| "venueText Mcec = ''Melbourne Convention and Exhibition Centre''"
| "venueText FiraBarcelona = ''Fira Barcelona''"
| "venueText ParisNord = ''Paris Nord Villepinte''"
| "venueText RaiAmsterdam = ''RAI Amsterdam''"

text \<open>\<^verbatim>\<open>Object.values(Venue)\<close>: the members in declaration order.\<close>

definition allVenues :: "Venue list" where
  "allVenues =
     [Impact, Bitec, Qsncc, Klcc, Mitec, Spice, Pwcc, Expo, Mbs, Jcc, Jiexpo, Ice,
      Smx, WtcManila, Secc, IceHanoi, Dwtc, MesseFrankfurt, MesseBerlin, MesseMunchen,
      Koelnmesse, IccSydney, Mcec, FiraBarcelona, ParisNord, RaiAmsterdam]"

text \<open>The predicate of the venue filter, one line per \<^verbatim>\<open>if (country === ...)\<close>.\<close>

fun venueOfCountry :: "Country \<Rightarrow> string \<Rightarrow> bool" where
  "venueOfCountry Thailand v =
     (includesStr v ''Impact'' \<or> includesStr v ''BITEC'' \<or> includesStr v ''Queen Sirikit'')"
| "venueOfCountry Malaysia v =
     (includesStr v ''Kuala Lumpur'' \<or> includesStr v ''MITEC'' \<or> includesStr v ''SPICE''
      \<or> includesStr v ''Penang'')"
| "venueOfCountry Singapore v = (includesStr v ''Singapore EXPO'' \<or> includesStr v ''Marina Bay'')"
| "venueOfCountry Indonesia v = (includesStr v ''Jakarta'' \<or> includesStr v ''Indonesia Convention'')"
| "venueOfCountry Philippines v = (includesStr v ''SMX'' \<or> includesStr v ''World Trade Center'')"
| "venueOfCountry Vietnam v = (includesStr v ''Saigon'' \<or> includesStr v ''Hanoi'')"
| "venueOfCountry UAE v = includesStr v ''Dubai''"
| "venueOfCountry Germany v = (includesStr v ''Messe'' \<or> includesStr v ''Koelnmesse'')"
| "venueOfCountry Australia v = (includesStr v ''Sydney'' \<or> includesStr v ''Melbourne'')"
| "venueOfCountry Europe v =
     (includesStr v ''Fira'' \<or> includesStr v ''Paris'' \<or> includesStr v ''RAI''
      \<or> includesStr v ''Messe'')"

text \<open>\<^verbatim>\<open>const venues = Object.values(Venue).filter(v => ...)\<close>\<close>

definition validVenues :: "Country \<Rightarrow> Venue list" where
  "validVenues country = filter (\<lambda>v. venueOfCountry country (venueText v)) allVenues"

section \<open>List discovery (geminiService.ts, searchEventList)\<close>

text \<open>
  What a call of the backend gives back: the call rejects or \<^verbatim>\<open>JSON.parse\<close> throws
  (\<open>Failed\<close>, with the message), or there is a parsed payload.
\<close>

datatype 'a reply = Failed string | Reply 'a

text \<open>
  One element of the parsed array. The elements are untyped (\<^verbatim>\<open>item: any\<close>); the code
  guards \<^verbatim>\<open>item.venueName\<close> against being absent or empty and copies the other fields,
  which the response schema requires, as they are.
\<close>

record rawItem =
  itemName :: string
  itemDateStart :: string
  itemDateEnd :: string
  venueName :: "string option"
  itemDescription :: "string option"

datatype listPayload = NotArray | Items "rawItem list"

text \<open>
  \<^verbatim>\<open>Omit<EventData, 'companies' | 'id'>\<close>. \<open>venue\<close> is \<open>None\<close> where the code would
  store \<^verbatim>\<open>undefined\<close> (\<^verbatim>\<open>venues[0]\<close> of an empty array).
\<close>

record eventBase =
  name :: string
  dateStart :: string
  dateEnd :: string
  venue :: "Venue option"
  country :: Country
  description :: "string option"

text \<open>
  The loop condition
  \<^verbatim>\<open>item.venueName && item.venueName.toLowerCase().includes(v.toLowerCase().split(' ')[0])\<close>
\<close>

definition venueHit :: "string option \<Rightarrow> Venue \<Rightarrow> bool" where
  "venueHit vn v =
     (case vn of
        None \<Rightarrow> False
      | Some t \<Rightarrow> t \<noteq> [] \<and> includesStr (toLowerCase t) (firstWord (toLowerCase (venueText v))))"

text \<open>\<^verbatim>\<open>for (const v of venues) { if (...) { matchedVenue = v; break; } }\<close>\<close>

fun matchLoop :: "string option \<Rightarrow> Venue list \<Rightarrow> Venue option \<Rightarrow> Venue option" where
  "matchLoop vn [] matchedVenue = matchedVenue"
| "matchLoop vn (v # vs) matchedVenue =
     (if venueHit vn v then Some v else matchLoop vn vs matchedVenue)"

text \<open>\<^verbatim>\<open>let matchedVenue = venues[0];\<close> and the loop.\<close>

definition matchVenue :: "Venue list \<Rightarrow> string option \<Rightarrow> Venue option" where
  "matchVenue venues vn =
     matchLoop vn venues (case venues of [] \<Rightarrow> None | v # _ \<Rightarrow> Some v)"

text \<open>
  \<^verbatim>\<open>getApiKey\<close> throws when no key is configured (\<^verbatim>\<open>if (!apiKey) throw\<close>); the
  configured key is a parameter, \<open>None\<close> or the empty string when there is none.
  \<^verbatim>\<open>searchEventList\<close> calls it before its \<^verbatim>\<open>try\<close>, and rethrows what the
  \<^verbatim>\<open>try\<close> block catches.
\<close>

definition searchEventList ::
    "string option \<Rightarrow> Country \<Rightarrow> listPayload reply \<Rightarrow> error + eventBase list" where
  "searchEventList apiKey ctry response =
     (if \<not> truthy apiKey then Inl ApiKeyMissing
      else let venues = validVenues ctry
           in case response of
                Failed msg \<Rightarrow> Inl (BackendFailure msg)
              | Reply NotArray \<Rightarrow> Inr []
              | Reply (Items rawData) \<Rightarrow>
                  Inr (map (\<lambda>item.
                         \<lparr>name = itemName item,
                          dateStart = itemDateStart item,
                          dateEnd = itemDateEnd item,
                          venue = matchVenue venues (venueName item),
                          country = ctry,
                          description = itemDescription item\<rparr>) rawData))"

section \<open>Shallow enrichment (geminiService.ts, enrichEventDetails)\<close>

record organizerRaw =
  orgName :: "string option"
  orgEmail :: "string option"
  orgContact :: "string option"

record exhibitorRaw =
  exName :: "string option"
  exEmail :: "string option"

text \<open>
  The parsed object: \<open>organizer\<close> is \<open>None\<close> when the field is absent, \<open>exhibitors\<close>
  when it is absent or not an array.
\<close>

record detailsRaw =
  organizer :: "organizerRaw option"
  exhibitors :: "exhibitorRaw list option"

text \<open>\<^verbatim>\<open>x || ""\<close>\<close>

definition orEmpty :: "string option \<Rightarrow> string" where
  "orEmpty x = (case x of None \<Rightarrow> [] | Some s \<Rightarrow> s)"

text \<open>
  The key is read before the \<^verbatim>\<open>try\<close>, so a missing key rejects the call; every
  failure inside the \<^verbatim>\<open>try\<close> gives the empty list.
\<close>

definition enrichEventDetails :: "string option \<Rightarrow> detailsRaw reply \<Rightarrow> error + company list" where
  "enrichEventDetails apiKey response =
     (if \<not> truthy apiKey then Inl ApiKeyMissing
      else case response of
             Failed msg \<Rightarrow> Inr []
           | Reply data \<Rightarrow>
               Inr ((case organizer data of
                       None \<Rightarrow> []
                     | Some org \<Rightarrow>
                         if truthy (orgName org)
                         then [\<lparr>cname = orgName org, email = Some (orEmpty (orgEmail org)),
                                contact = Some (orEmpty (orgContact org)), role = ''Organizer''\<rparr>]
                         else [])
                    @ (case exhibitors data of
                         None \<Rightarrow> []
                       | Some exs \<Rightarrow>
                           map (\<lambda>ex. \<lparr>cname = exName ex, email = Some (orEmpty (exEmail ex)),
                                      contact = None, role = ''Exhibitor''\<rparr>) exs)))"

section \<open>Event identity (App.tsx, generateEventId)\<close>

text \<open>
  \<^verbatim>\<open>unescape(encodeURIComponent(s))\<close> is the string whose code units are the bytes of the
  UTF-8 encoding of \<open>s\<close>: \<^verbatim>\<open>encodeURIComponent\<close> writes every byte of the encoding that
  is not an unreserved ASCII character as \<^verbatim>\<open>%XX\<close> and \<^verbatim>\<open>unescape\<close> reads each
  \<^verbatim>\<open>%XX\<close> back as one code unit. A code unit below U+0080 is one byte, one from U+0080 to
  U+00FF is the two bytes \<open>110000xx 10xxxxxx\<close>.
\<close>

definition utf8Char :: "char \<Rightarrow> string" where
  "utf8Char c =
     (let n = (of_char c :: nat)
      in if n < 128 then [c] else [char_of (192 + n div 64), char_of (128 + n mod 64)])"

definition utf8 :: "string \<Rightarrow> string" where
  "utf8 s = concat (map utf8Char s)"

text \<open>\<^verbatim>\<open>btoa\<close>: Base64 with the standard alphabet and \<open>=\<close> padding.\<close>

definition b64chars :: string where
  "b64chars = ''ABCDEFGHIJKLMNOPQRSTUVWXYZabcdefghijklmnopqrstuvwxyz0123456789+/''"

definition b64 :: "nat \<Rightarrow> char" where
  "b64 n = b64chars ! n"

fun btoa :: "string \<Rightarrow> string" where
  "btoa [] = []"
| "btoa [a] =
     (let x = (of_char a :: nat)
      in [b64 (x div 4), b64 ((x mod 4) * 16), CHR ''='', CHR ''=''])"
| "btoa [a, b] =
     (let x = (of_char a :: nat); y = (of_char b :: nat)
      in [b64 (x div 4), b64 ((x mod 4) * 16 + y div 16), b64 ((y mod 16) * 4), CHR ''=''])"
| "btoa (a # b # c # rest) =
     (let x = (of_char a :: nat); y = (of_char b :: nat); z = (of_char c :: nat)
      in [b64 (x div 4), b64 ((x mod 4) * 16 + y div 16), b64 ((y mod 16) * 4 + z div 64),
          b64 (z mod 64)] @ btoa rest)"

text \<open>
  \<^verbatim>\<open>btoa(unescape(encodeURIComponent(`${name.toLowerCase().trim()}-${date}`)))\<close>
\<close>

definition generateEventId :: "string \<Rightarrow> string \<Rightarrow> string" where
  "generateEventId nm date = btoa (utf8 (trim (toLowerCase nm) @ ''-'' @ date))"

section \<open>Catalog merge (App.tsx, handleSearch)\<close>

text \<open>\<^verbatim>\<open>EventData\<close>: \<^verbatim>\<open>{ ...base, id, isNew, companies }\<close>. \<open>isNew\<close> is optional.\<close>

record eventData = eventBase +
  eid :: string
  isNew :: "bool option"
  companies :: "company list"

text \<open>
  \<^verbatim>\<open>new Map(events.map(e => [e.id, e]))\<close>: of two entries with one key the later one stays.
\<close>

definition existingEventsMap :: "eventData list \<Rightarrow> (string \<rightharpoonup> eventData)" where
  "existingEventsMap evs = map_of (rev (map (\<lambda>e. (eid e, e)) evs))"

text \<open>The function mapped over \<^verbatim>\<open>basicList\<close> to build \<^verbatim>\<open>mergedEvents\<close>.\<close>

definition mergeOne :: "eventData list \<Rightarrow> eventBase \<Rightarrow> eventData" where
  "mergeOne evs base =
     (let i = generateEventId (name base) (dateStart base);
          existing = existingEventsMap evs i
      in \<lparr>name = name base, dateStart = dateStart base, dateEnd = dateEnd base,
          venue = venue base, country = country base, description = description base,
          eid = i,
          isNew = Some (existing = None),
          companies = (case existing of Some e \<Rightarrow> companies e | None \<Rightarrow> [])\<rparr>)"

text \<open>
  \<^verbatim>\<open>new Date(s).getTime()\<close> is a parameter \<open>clock\<close> of the model: the time value of the
  date string, \<open>None\<close> for \<^verbatim>\<open>NaN\<close> (a string that is no date). The comparator
  \<^verbatim>\<open>(a, b) => new Date(a.dateStart).getTime() - new Date(b.dateStart).getTime()\<close>
  is \<^verbatim>\<open>NaN\<close> as soon as one side is.
\<close>

definition compareStart :: "(string \<Rightarrow> int option) \<Rightarrow> eventData \<Rightarrow> eventData \<Rightarrow> int option" where
  "compareStart clock a b =
     (case (clock (dateStart a), clock (dateStart b)) of
        (Some x, Some y) \<Rightarrow> Some (x - y)
      | _ \<Rightarrow> None)"

text \<open>
  \<^verbatim>\<open>Array.prototype.sort(comparefn)\<close> is a stable sort; a comparator result \<^verbatim>\<open>NaN\<close>
  counts as \<open>0\<close>. For a consistent comparator every stable sort has the same result, which
  is the one of this insertion sort (an element goes before the first one it does not
  exceed, elements are inserted from the right). For an inconsistent comparator, which
  \<open>compareStart\<close> is only where a start date is no date, ECMAScript leaves the order
  to the implementation.
\<close>

definition sortCompare :: "('a \<Rightarrow> 'a \<Rightarrow> int option) \<Rightarrow> 'a \<Rightarrow> 'a \<Rightarrow> int" where
  "sortCompare comparefn x y = (case comparefn x y of None \<Rightarrow> 0 | Some v \<Rightarrow> v)"

fun insertSorted :: "('a \<Rightarrow> 'a \<Rightarrow> int option) \<Rightarrow> 'a \<Rightarrow> 'a list \<Rightarrow> 'a list" where
  "insertSorted comparefn x [] = [x]"
| "insertSorted comparefn x (y # ys) =
     (if sortCompare comparefn x y \<le> 0 then x # y # ys else y # insertSorted comparefn x ys)"

definition sortJS :: "('a \<Rightarrow> 'a \<Rightarrow> int option) \<Rightarrow> 'a list \<Rightarrow> 'a list" where
  "sortJS comparefn xs = foldr (insertSorted comparefn) xs []"

text \<open>
  The updater passed to \<^verbatim>\<open>setEvents\<close> in both phases:
  \<^verbatim>\<open>
  const others = prev.filter(e => e.country !== activeCountry);
  const combined = [...others, ...mergedEvents];
  combined.sort((a, b) => ...);
  return combined;
  \<close>
\<close>

definition mergePhase ::
    "(string \<Rightarrow> int option) \<Rightarrow> Country \<Rightarrow> eventData list \<Rightarrow> eventData list \<Rightarrow> eventData list" where
  "mergePhase clock activeCountry prev merged =
     (let others = filter (\<lambda>e. country e \<noteq> activeCountry) prev;
          combined = others @ merged
      in sortJS (compareStart clock) combined)"

section \<open>Enrichment scheduler (App.tsx, handleSearch)\<close>

text \<open>
  The workers are \<^verbatim>\<open>async\<close> functions on one thread: a worker runs without interruption
  from one \<^verbatim>\<open>await\<close> to the next, and the only \<^verbatim>\<open>await\<close> of the loop is the call of
  \<^verbatim>\<open>enrichEventDetails\<close>. A worker is therefore either not yet called, suspended in the
  call for one event, or past its loop.

  The objects of \<^verbatim>\<open>mergedEvents\<close> are shared by reference between that array and
  \<^verbatim>\<open>processQueue\<close>; the model keeps them in \<open>working\<close> and refers to the object
  \<^verbatim>\<open>mergedEvents[i]\<close> by its index \<open>i\<close>. \<open>reported\<close> lists the arguments of the calls
  of \<^verbatim>\<open>setProgress\<close> in the loop and \<open>enrichCalls\<close> the events for which
  \<^verbatim>\<open>enrichEventDetails\<close> was called, both oldest first. Progress values are rational
  numbers (the source computes them in floating point).
\<close>

datatype worker = NotStarted | Awaiting nat | Finished

record sched =
  working :: "eventData list"
  processQueue :: "nat list"
  totalToProcess :: nat
  processedCount :: nat
  reported :: "rat list"
  enrichCalls :: "nat list"
  workers :: "worker list"

definition concurrency :: nat where
  "concurrency = 3"

text \<open>
  \<^verbatim>\<open>
  const totalToProcess = mergedEvents.length;
  let processedCount = 0;
  const processQueue = [...mergedEvents];
  \<close>
\<close>

definition initSched :: "eventData list \<Rightarrow> sched" where
  "initSched merged =
     \<lparr>working = merged,
      processQueue = [0 ..< length merged],
      totalToProcess = length merged,
      processedCount = 0,
      reported = [],
      enrichCalls = [],
      workers = replicate concurrency NotStarted\<rparr>"

text \<open>
  \<^verbatim>\<open>
  processedCount++;
  const currentProgress = 20 + ((processedCount / totalToProcess) * 80);
  setProgress(currentProgress);
  \<close>
\<close>

definition countProcessed :: "sched \<Rightarrow> sched" where
  "countProcessed s =
     (let k = processedCount s + 1;
          currentProgress = 20 + (of_nat k / of_nat (totalToProcess s)) * 80
      in s\<lparr>processedCount := k, reported := reported s @ [currentProgress]\<rparr>)"

text \<open>
  Worker \<open>w\<close> from the head of its \<^verbatim>\<open>while\<close> loop to its next \<^verbatim>\<open>await\<close> or to the
  end of the loop. (\<^verbatim>\<open>if (!event) break\<close> never fires: the queue is not empty and holds
  objects.)
\<close>

function workerLoop :: "nat \<Rightarrow> sched \<Rightarrow> sched" where
  "workerLoop w s =
     (if processQueue s = [] then s\<lparr>workers := (workers s)[w := Finished]\<rparr>
      else let i = hd (processQueue s);
               s1 = s\<lparr>processQueue := tl (processQueue s)\<rparr>
           in if companies (working s1 ! i) = []
              then s1\<lparr>enrichCalls := enrichCalls s1 @ [i],
                      workers := (workers s1)[w := Awaiting i]\<rparr>
              else workerLoop w (countProcessed s1))"
  by pat_completeness auto
termination
  by (relation "measure (\<lambda>(w, s). length (processQueue s))")
     (auto simp: countProcessed_def Let_def)

declare workerLoop.simps [simp del]

text \<open>
  The call awaited by worker \<open>w\<close> settles: a fulfilled call stores its companies on the
  event, a rejected one is caught and logged; then the event is counted and the loop goes
  on. Nothing happens if worker \<open>w\<close> awaits nothing.
\<close>

definition resume :: "string option \<Rightarrow> nat \<Rightarrow> detailsRaw reply \<Rightarrow> sched \<Rightarrow> sched" where
  "resume apiKey w response s =
     (if w < length (workers s)
      then (case workers s ! w of
              Awaiting i \<Rightarrow>
                (let s1 = (case enrichEventDetails apiKey response of
                             Inr cs \<Rightarrow>
                               s\<lparr>working := (working s)[i := (working s ! i)\<lparr>companies := cs\<rparr>]\<rparr>
                           | Inl e \<Rightarrow> s)
                 in workerLoop w (countProcessed s1))
            | _ \<Rightarrow> s)
      else s)"

text \<open>
  \<^verbatim>\<open>Array(concurrency).fill(null).map(() => worker())\<close>: the workers are called one after
  the other, each running up to its first \<^verbatim>\<open>await\<close>.
\<close>

definition startWorkers :: "eventData list \<Rightarrow> sched" where
  "startWorkers merged = foldl (\<lambda>s w. workerLoop w s) (initSched merged) [0 ..< concurrency]"

text \<open>
  A schedule lists, in the order in which the awaited calls settle, the worker that is
  resumed and what the backend answered.
\<close>

definition runScheduler ::
    "string option \<Rightarrow> (nat \<times> detailsRaw reply) list \<Rightarrow> eventData list \<Rightarrow> sched" where
  "runScheduler apiKey schedule merged =
     foldl (\<lambda>s (w, response). resume apiKey w response s) (startWorkers merged) schedule"

section \<open>The discovery run (App.tsx, handleSearch)\<close>

text \<open>
  The state the run works on: the React state \<open>events\<close>, the values written to
  \<^verbatim>\<open>localStorage\<close> under \<^verbatim>\<open>asean_events_data\<close> (oldest first), and the \<open>loading\<close>,
  \<open>progress\<close> and \<open>error\<close> states (\<open>failure\<close> holds the error whose message
  \<^verbatim>\<open>setError\<close> shows). The status message is display only and left out.
\<close>

record appState =
  events :: "eventData list"
  storage :: "eventData list list"
  loading :: bool
  progress :: rat
  failure :: "error option"

text \<open>
  The run, given what the backend answers to the list query and the schedule of the
  enrichment calls. The second component lists the events given to
  \<^verbatim>\<open>enrichEventDetails\<close>. \<^verbatim>\<open>await Promise.all(workers)\<close> returns once every worker
  is past its loop; under a schedule that leaves a call unsettled the run stays where it
  is, after Phase 1. The closure's \<^verbatim>\<open>events\<close> and the \<^verbatim>\<open>prev\<close> of the first
  \<^verbatim>\<open>setEvents\<close> are the same catalog, and no other handler writes the catalog during
  the run. The workers change the objects of \<^verbatim>\<open>mergedEvents\<close> in place; the Phase-2
  updater drops the Phase-1 copies of them (they are of the active country) and takes the
  changed ones.
\<close>

definition handleSearch ::
    "(string \<Rightarrow> int option) \<Rightarrow> string option \<Rightarrow> Country \<Rightarrow> listPayload reply
      \<Rightarrow> (nat \<times> detailsRaw reply) list \<Rightarrow> appState \<Rightarrow> appState \<times> nat list" where
  "handleSearch clock apiKey activeCountry listResponse schedule app =
     (let app0 = app\<lparr>loading := True, progress := 0, failure := None\<rparr>
      in case (case searchEventList apiKey activeCountry listResponse of
                 Inl e \<Rightarrow> Inl e
               | Inr basicList \<Rightarrow> if basicList = [] then Inl NoEventsFound else Inr basicList) of
           Inl e \<Rightarrow> (app0\<lparr>failure := Some e, loading := False\<rparr>, [])
         | Inr basicList \<Rightarrow>
             (let app1 = app0\<lparr>progress := 20\<rparr>;
                  merged = map (mergeOne (events app)) basicList;
                  app2 = app1\<lparr>events := mergePhase clock activeCountry (events app1) merged\<rparr>;
                  s = runScheduler apiKey schedule merged;
                  app3 = app2\<lparr>progress := last (progress app2 # reported s)\<rparr>
              in if list_all (\<lambda>w. w = Finished) (workers s)
                 then (let finalEvents = mergePhase clock activeCountry (events app3) (working s)
                       in (app3\<lparr>events := finalEvents,
                                storage := storage app3 @ [finalEvents],
                                loading := False\<rparr>,
                           enrichCalls s))
                 else (app3, enrichCalls s)))"

section \<open>Deep search of one event (App.tsx, handleDeepSearchEvent)\<close>

text \<open>
  The updater \<^verbatim>\<open>prev.map(e => e.id === event.id ? {...e, companies: ...} : e)\<close>, for
  the id of the searched event and the batch \<^verbatim>\<open>moreCompanies\<close>.
\<close>

definition deepSearchMerge ::
    "string \<Rightarrow> company list \<Rightarrow> eventData list \<Rightarrow> error + eventData list" where
  "deepSearchMerge targetId moreCompanies prev =
     mapE (\<lambda>e. if eid e = targetId
                then (case dedupAppend (companies e) moreCompanies of
                        Inl x \<Rightarrow> Inl x
                      | Inr cs \<Rightarrow> Inr (e\<lparr>companies := cs\<rparr>))
                else Inr e) prev"

section \<open>Invariant of the scheduler\<close>

text \<open>
  What holds of the scheduler's state throughout a run on the working set \<open>merged\<close>:
  the queue holds each event at most once, and only events that are as they were at the
  start; an event is given to the enrichment at most once, only if its companies list was
  empty at the start, and only after it left the queue; a suspended worker waits for an
  event that was given to the enrichment; the progress values reported so far are those
  of the counts \<open>1\<close> to \<open>processedCount\<close>.
\<close>

definition schedInv :: "eventData list \<Rightarrow> sched \<Rightarrow> bool" where
  "schedInv merged s \<longleftrightarrow>
     length (working s) = length merged
     \<and> totalToProcess s = length merged
     \<and> distinct (processQueue s)
     \<and> (\<forall>i \<in> set (processQueue s).
           i < length merged \<and> companies (working s ! i) = companies (merged ! i))
     \<and> distinct (enrichCalls s)
     \<and> (\<forall>i \<in> set (enrichCalls s).
           i < length merged \<and> companies (merged ! i) = [] \<and> i \<notin> set (processQueue s))
     \<and> (\<forall>w < length (workers s). \<forall>i. workers s ! w = Awaiting i \<longrightarrow> i \<in> set (enrichCalls s))
     \<and> reported s
         = map (\<lambda>k. 20 + (of_nat k / of_nat (length merged)) * 80) [1 ..< Suc (processedCount s)]"

section \<open>Sample data\<close>

text \<open>A company that has only a name, as far as the properties below care.\<close>

definition sampleCompany :: "string \<Rightarrow> company" where
  "sampleCompany n = \<lparr>cname = Some n, email = Some [], contact = None, role = ''Exhibitor''\<rparr>"

text \<open>
  A parsed list payload for Thailand: an item without a venue name, one with an empty
  venue name, one whose venue name matches no venue, and one at BITEC.
\<close>

definition sampleItem :: "string \<Rightarrow> string \<Rightarrow> string option \<Rightarrow> rawItem" where
  "sampleItem n d vn =
     \<lparr>itemName = n, itemDateStart = d, itemDateEnd = d, venueName = vn, itemDescription = None\<rparr>"

definition samplePayload :: "rawItem list" where
  "samplePayload =
     [sampleItem ''Food Expo'' ''2025-03-01'' None,
      sampleItem ''Tech Fair'' ''2025-04-01'' (Some []),
      sampleItem ''Boat Show'' ''2025-05-01'' (Some ''Harbour Hall''),
      sampleItem ''Auto Salon'' ''2025-06-01'' (Some ''BITEC Bangna Hall 5'')]"

text \<open>
  The time values (milliseconds since the epoch, UTC) of the start dates used in the
  examples; every other string is no date for this clock.
\<close>

definition sampleClock :: "string \<Rightarrow> int option" where
  "sampleClock s =
     (if s = ''2025-03-01'' then Some 1740787200000
      else if s = ''2025-04-01'' then Some 1743465600000
      else if s = ''2025-05-01'' then Some 1746057600000
      else if s = ''2025-06-01'' then Some 1748736000000
      else None)"

text \<open>Events that consist of a name, a start date and a country.\<close>

definition sampleBase :: "string \<Rightarrow> string \<Rightarrow> Country \<Rightarrow> eventBase" where
  "sampleBase n d c =
     \<lparr>name = n, dateStart = d, dateEnd = d, venue = None, country = c, description = None\<rparr>"

definition sampleEvent :: "string \<Rightarrow> string \<Rightarrow> Country \<Rightarrow> company list \<Rightarrow> eventData" where
  "sampleEvent n d c cs =
     \<lparr>name = n, dateStart = d, dateEnd = d, venue = None, country = c, description = None,
      eid = generateEventId n d, isNew = Some False, companies = cs\<rparr>"

text \<open>
  A catalog with two events in Singapore and one in Malaysia, and what list discovery
  returns for Singapore: the known \<open>Food Expo\<close> spelled differently and a new event.
\<close>

definition sampleCatalog :: "eventData list" where
  "sampleCatalog =
     [sampleEvent ''Food Expo'' ''2025-05-01'' Singapore
        [sampleCompany ''Acme'', sampleCompany ''Beta'', sampleCompany ''Gamma''],
      sampleEvent ''Boat Show'' ''2025-03-01'' Singapore [sampleCompany ''Delta''],
      sampleEvent ''Auto Salon'' ''2025-04-01'' Malaysia []]"

definition sampleFresh :: "eventBase list" where
  "sampleFresh =
     [sampleBase '' food EXPO '' ''2025-05-01'' Singapore,
      sampleBase ''Tech Fair'' ''2025-03-01'' Singapore]"

text \<open>
  A working set of five events, the second with a company carried over, and a schedule
  for it: the calls of workers 1, 0, 2 and 1 settle in this order, the second one failing.
\<close>

definition sampleWorking :: "eventData list" where
  "sampleWorking =
     [sampleEvent ''Food Expo'' ''2025-05-01'' Singapore [],
      sampleEvent ''Boat Show'' ''2025-03-01'' Singapore [sampleCompany ''Delta''],
      sampleEvent ''Tech Fair'' ''2025-04-01'' Singapore [],
      sampleEvent ''Toy Fair'' ''2025-06-01'' Singapore [],
      sampleEvent ''Book Fair'' ''2025-06-01'' Singapore []]"

definition sampleReply :: "string \<Rightarrow> detailsRaw reply" where
  "sampleReply n =
     Reply \<lparr>organizer = None, exhibitors = Some [\<lparr>exName = Some n, exEmail = None\<rparr>]\<rparr>"

definition sampleSchedule :: "(nat \<times> detailsRaw reply) list" where
  "sampleSchedule =
     [(1, sampleReply ''Acme''), (0, Failed ''timeout''), (2, sampleReply ''Beta''),
      (1, sampleReply ''Gamma'')]"

text \<open>An answer of the backend whose only exhibitor record has no \<open>name\<close> field.\<close>

definition namelessReply :: "detailsRaw reply" where
  "namelessReply =
     Reply \<lparr>organizer = None,
            exhibitors = Some [\<lparr>exName = None, exEmail = Some ''info@example.com''\<rparr>]\<rparr>"

text \<open>The application with the sample catalog loaded and stored, at rest.\<close>

definition sampleApp :: appState where
  "sampleApp =
     \<lparr>events = sampleCatalog, storage = [sampleCatalog], loading = False, progress = 100,
      failure = None\<rparr>"

section \<open>Properties\<close>

lemma mapE_nameLower_named:
  "\<forall>c \<in> set cs. cname c \<noteq> None \<Longrightarrow>
   mapE nameLower cs = Inr (map (\<lambda>c. toLowerCase (the (cname c))) cs)"
  by (induction cs) (auto simp: nameLower_def)

lemma filterE_named:
  "\<forall>c \<in> set cs. cname c \<noteq> None \<Longrightarrow>
   filterE (\<lambda>c. case nameLower c of Inl e \<Rightarrow> Inl e | Inr n \<Rightarrow> Inr (n \<notin> S)) cs
     = Inr (filter (\<lambda>c. toLowerCase (the (cname c)) \<notin> S) cs)"
  by (induction cs) (auto simp: nameLower_def)

subsection \<open>Deduplication and append\<close>

text \<open>
  C6. For companies that all have a name, the dedup/append operation returns the event's
  prior companies list unchanged, followed by exactly those entries of the batch whose
  lower-cased name is not the lower-cased name of a prior company, in the order of the
  batch; names that occur twice inside the batch stay. In particular, the prior list
  \<open>[Acme]\<close> and the batch \<open>[acme, Beta]\<close> give \<open>[Acme, Beta]\<close>.
\<close>

theorem dedupAppend_appends_unseen:
  assumes "\<forall>c \<in> set existing. cname c \<noteq> None" and "\<forall>c \<in> set batch. cname c \<noteq> None"
  shows "dedupAppend existing batch =
           Inr (existing @ filter (\<lambda>c. toLowerCase (the (cname c))
                     \<notin> set (map (\<lambda>c. toLowerCase (the (cname c))) existing)) batch)
         \<and> dedupAppend [\<lparr>cname = Some ''Acme'', email = e1, contact = k1, role = r1\<rparr>]
              [\<lparr>cname = Some ''acme'', email = e2, contact = k2, role = r2\<rparr>,
               \<lparr>cname = Some ''Beta'', email = e3, contact = k3, role = r3\<rparr>]
            = Inr [\<lparr>cname = Some ''Acme'', email = e1, contact = k1, role = r1\<rparr>,
                   \<lparr>cname = Some ''Beta'', email = e3, contact = k3, role = r3\<rparr>]"
proof
  show "dedupAppend existing batch =
           Inr (existing @ filter (\<lambda>c. toLowerCase (the (cname c))
                     \<notin> set (map (\<lambda>c. toLowerCase (the (cname c))) existing)) batch)"
    using assms by (simp add: dedupAppend_def mapE_nameLower_named filterE_named)
next
  have l: "toLowerCase ''Acme'' = ''acme''" "toLowerCase ''acme'' = ''acme''"
    "toLowerCase ''Beta'' = ''beta''"
    by code_simp+
  show "dedupAppend [\<lparr>cname = Some ''Acme'', email = e1, contact = k1, role = r1\<rparr>]
              [\<lparr>cname = Some ''acme'', email = e2, contact = k2, role = r2\<rparr>,
               \<lparr>cname = Some ''Beta'', email = e3, contact = k3, role = r3\<rparr>]
            = Inr [\<lparr>cname = Some ''Acme'', email = e1, contact = k1, role = r1\<rparr>,
                   \<lparr>cname = Some ''Beta'', email = e3, contact = k3, role = r3\<rparr>]"
    by (simp add: dedupAppend_def nameLower_def l)
qed

theorem dedupAppend_appends_unseen_witness:
  "dedupAppend [sampleCompany ''Acme'']
     [sampleCompany ''acme'', sampleCompany ''Beta'', sampleCompany ''Beta'']
   = Inr [sampleCompany ''Acme'', sampleCompany ''Beta'', sampleCompany ''Beta'']"
proof -
  have a: "\<forall>c \<in> set [sampleCompany ''Acme'']. cname c \<noteq> None"
    by (simp add: sampleCompany_def)
  have b: "\<forall>c \<in> set [sampleCompany ''acme'', sampleCompany ''Beta'', sampleCompany ''Beta''].
             cname c \<noteq> None"
    by (simp add: sampleCompany_def)
  have c: "[sampleCompany ''Acme''] @ filter (\<lambda>c. toLowerCase (the (cname c))
               \<notin> set (map (\<lambda>c. toLowerCase (the (cname c))) [sampleCompany ''Acme'']))
             [sampleCompany ''acme'', sampleCompany ''Beta'', sampleCompany ''Beta'']
           = [sampleCompany ''Acme'', sampleCompany ''Beta'', sampleCompany ''Beta'']"
    by code_simp
  from dedupAppend_appends_unseen [OF a b] show ?thesis
    unfolding c by blast
qed

subsection \<open>Venue re-matching\<close>



lemma matchLoop_find:
  "matchLoop vn vs d = (case find (venueHit vn) vs of Some v \<Rightarrow> Some v | None \<Rightarrow> d)"
  by (induction vs) auto

lemma validVenues_values:
  "validVenues Thailand = [Impact, Bitec, Qsncc]"
  "validVenues Malaysia = [Klcc, Mitec, Spice, Pwcc]"
  "validVenues Singapore = [Expo, Mbs]"
  "validVenues Indonesia = [Jcc, Jiexpo, Ice]"
  "validVenues Philippines = [Smx, WtcManila]"
  "validVenues Vietnam = [Secc, IceHanoi]"
  "validVenues UAE = [Dwtc]"
  "validVenues Germany = [MesseFrankfurt, MesseBerlin, MesseMunchen, Koelnmesse]"
  "validVenues Australia = [IccSydney, Mcec]"
  "validVenues Europe =
     [MesseFrankfurt, MesseBerlin, MesseMunchen, FiraBarcelona, ParisNord, RaiAmsterdam]"
  by code_simp+

lemma validVenues_nonempty: "validVenues c \<noteq> []"
  by (cases c) (simp_all add: validVenues_values)



lemma matchVenue_in_valid:
  "\<exists>v \<in> set (validVenues c). matchVenue (validVenues c) vn = Some v"
proof (cases "find (venueHit vn) (validVenues c)")
  case None
  then show ?thesis
    using validVenues_nonempty [of c]
    by (cases "validVenues c") (auto simp: matchVenue_def matchLoop_find)
next
  case (Some v)
  then have "v \<in> set (validVenues c)" by (auto simp: find_Some_iff)
  with Some show ?thesis by (simp add: matchVenue_def matchLoop_find)
qed





text \<open>
  C9. Every event returned by list discovery has the requested country as its country and
  a venue of that country's valid venues as its venue, whatever the payload; with a key
  configured, an array payload gives one event per item, also where an item's venue name
  is absent, empty or matches no valid venue.
\<close>

theorem searchEventList_country_venue:
  "(searchEventList apiKey ctry response = Inr evs \<longrightarrow>
      (\<forall>e \<in> set evs. country e = ctry \<and> (\<exists>v \<in> set (validVenues ctry). venue e = Some v)))
   \<and> (truthy apiKey \<longrightarrow>
        (\<exists>evs'. searchEventList apiKey ctry (Reply (Items rawData)) = Inr evs'
                 \<and> length evs' = length rawData))"
proof (intro conjI impI)
  assume r: "searchEventList apiKey ctry response = Inr evs"
  show "\<forall>e \<in> set evs. country e = ctry \<and> (\<exists>v \<in> set (validVenues ctry). venue e = Some v)"
  proof
    fix e
    assume e: "e \<in> set evs"
    from r e show "country e = ctry \<and> (\<exists>v \<in> set (validVenues ctry). venue e = Some v)"
      by (auto simp: searchEventList_def Let_def matchVenue_in_valid
               split: if_splits reply.splits listPayload.splits)
  qed
next
  assume "truthy apiKey"
  then show "\<exists>evs'. searchEventList apiKey ctry (Reply (Items rawData)) = Inr evs'
                 \<and> length evs' = length rawData"
    by (simp add: searchEventList_def Let_def)
qed

theorem searchEventList_country_venue_witness:
  "\<exists>evs. searchEventList (Some ''key'') Thailand (Reply (Items samplePayload)) = Inr evs
      \<and> map venue evs = [Some Impact, Some Impact, Some Impact, Some Bitec]
      \<and> (\<forall>e \<in> set evs. country e = Thailand
            \<and> (\<exists>v \<in> set (validVenues Thailand). venue e = Some v))"
proof -
  have k: "truthy (Some ''key'')" by (simp add: truthy_def)
  from searchEventList_country_venue [of "Some ''key''" Thailand _ _ samplePayload] k
  obtain evs where
    r: "searchEventList (Some ''key'') Thailand (Reply (Items samplePayload)) = Inr evs"
    by blast
  from searchEventList_country_venue [of "Some ''key''" Thailand "Reply (Items samplePayload)" evs] r
  have all: "\<forall>e \<in> set evs. country e = Thailand
               \<and> (\<exists>v \<in> set (validVenues Thailand). venue e = Some v)"
    by blast
  have "map venue (projr (searchEventList (Some ''key'') Thailand (Reply (Items samplePayload))))
          = [Some Impact, Some Impact, Some Impact, Some Bitec]"
    by code_simp
  with r have m: "map venue evs = [Some Impact, Some Impact, Some Impact, Some Bitec]" by simp
  show ?thesis
    using r all m by (intro exI [of _ evs]) simp
qed


subsection \<open>Catalog merge\<close>

lemma map_of_find: "map_of (map (\<lambda>e. (f e, e)) xs) k = find (\<lambda>e. f e = k) xs"
  by (induction xs) auto

lemma existingEventsMap_find:
  "existingEventsMap evs i = find (\<lambda>e. eid e = i) (rev evs)"
  by (simp add: existingEventsMap_def rev_map map_of_find)

lemma existingEventsMap_None: "existingEventsMap evs i = None \<longleftrightarrow> i \<notin> eid ` set evs"
  by (auto simp: existingEventsMap_find find_None_iff)

lemma existingEventsMap_Some:
  "existingEventsMap evs i = Some e \<Longrightarrow> e \<in> set evs \<and> eid e = i"
  unfolding existingEventsMap_def by (auto dest!: map_of_SomeD)

lemma existingEventsMap_unique:
  assumes "distinct (map eid evs)" and "e \<in> set evs"
  shows "existingEventsMap evs (eid e) = Some e"
proof -
  from assms(2) have "existingEventsMap evs (eid e) \<noteq> None"
    by (auto simp: existingEventsMap_None)
  then obtain e' where e': "existingEventsMap evs (eid e) = Some e'" by blast
  then have "e' \<in> set evs" "eid e' = eid e"
    using existingEventsMap_Some by blast+
  with assms have "e' = e" by (meson distinct_map inj_onD)
  with e' show ?thesis by simp
qed

lemma set_insertSorted: "set (insertSorted c x xs) = insert x (set xs)"
  by (induction xs) auto

lemma set_sortJS: "set (sortJS c xs) = set xs"
  by (induction xs) (auto simp: sortJS_def set_insertSorted)

lemma distinct_map_insertSorted:
  "distinct (map f (insertSorted c x xs)) = distinct (map f (x # xs))"
  by (induction xs) (auto simp: set_insertSorted)

lemma distinct_map_sortJS: "distinct (map f (sortJS c xs)) = distinct (map f xs)"
proof (induction xs)
  case Nil
  then show ?case by (simp add: sortJS_def)
next
  case (Cons x xs)
  have "sortJS c (x # xs) = insertSorted c x (sortJS c xs)" by (simp add: sortJS_def)
  then show ?case using Cons by (simp add: distinct_map_insertSorted set_sortJS)
qed

lemma sortCompare_compareStart:
  assumes "clock (dateStart a) \<noteq> None" and "clock (dateStart b) \<noteq> None"
  shows "sortCompare (compareStart clock) a b \<le> 0
           \<longleftrightarrow> the (clock (dateStart a)) \<le> the (clock (dateStart b))"
  using assms by (auto simp: sortCompare_def compareStart_def)

lemma sorted_insertSorted:
  assumes "sorted (map (\<lambda>e. the (clock (dateStart e))) xs)"
    and "clock (dateStart x) \<noteq> None" and "\<forall>e \<in> set xs. clock (dateStart e) \<noteq> None"
  shows "sorted (map (\<lambda>e. the (clock (dateStart e))) (insertSorted (compareStart clock) x xs))"
  using assms
proof (induction xs)
  case Nil
  then show ?case by simp
next
  case (Cons y ys)
  then show ?case
    by (auto simp: sortCompare_compareStart set_insertSorted)
qed

lemma sorted_sortJS:
  assumes "\<forall>e \<in> set xs. clock (dateStart e) \<noteq> None"
  shows "sorted (map (\<lambda>e. the (clock (dateStart e))) (sortJS (compareStart clock) xs))"
  using assms
proof (induction xs)
  case Nil
  then show ?case by (simp add: sortJS_def)
next
  case (Cons x xs)
  have "sortJS (compareStart clock) (x # xs)
          = insertSorted (compareStart clock) x (sortJS (compareStart clock) xs)"
    by (simp add: sortJS_def)
  with Cons show ?case by (simp add: sorted_insertSorted set_sortJS)
qed

lemma set_mergePhase:
  "set (mergePhase clock c prev merged) = {e \<in> set prev. country e \<noteq> c} \<union> set merged"
  by (auto simp: mergePhase_def Let_def set_sortJS)

text \<open>
  C3. After the Phase-1 merge every freshly discovered event is in the catalog with its
  computed id; its \<open>isNew\<close> flag is true exactly when that id was absent from the catalog
  before the merge; its companies list is the one of the prior catalog entry with that id
  (the last such entry, should there be several) and is empty when there is none.
\<close>

theorem phase1_isNew_and_companies:
  "length (map (mergeOne evs) basicList) = length basicList
   \<and> (\<forall>k < length basicList.
        eid (map (mergeOne evs) basicList ! k)
          = generateEventId (name (basicList ! k)) (dateStart (basicList ! k))
        \<and> map (mergeOne evs) basicList ! k \<in> set (mergePhase clock c evs (map (mergeOne evs) basicList))
        \<and> isNew (map (mergeOne evs) basicList ! k)
            = Some (eid (map (mergeOne evs) basicList ! k) \<notin> eid ` set evs)
        \<and> companies (map (mergeOne evs) basicList ! k)
            = (case find (\<lambda>e. eid e = eid (map (mergeOne evs) basicList ! k)) (rev evs) of
                 Some e \<Rightarrow> companies e
               | None \<Rightarrow> [])
        \<and> (eid (map (mergeOne evs) basicList ! k) \<notin> eid ` set evs
             \<longrightarrow> companies (map (mergeOne evs) basicList ! k) = [])
        \<and> (distinct (map eid evs) \<longrightarrow>
             (\<forall>e \<in> set evs. eid e = eid (map (mergeOne evs) basicList ! k)
                \<longrightarrow> companies (map (mergeOne evs) basicList ! k) = companies e)))"
proof (intro conjI allI impI ballI)
  show "length (map (mergeOne evs) basicList) = length basicList" by simp
next
  fix k assume k: "k < length basicList"
  define m where "m = map (mergeOne evs) basicList ! k"
  have m: "m = mergeOne evs (basicList ! k)" using k by (simp add: m_def)
  show "eid (map (mergeOne evs) basicList ! k)
          = generateEventId (name (basicList ! k)) (dateStart (basicList ! k))"
    using k by (simp add: mergeOne_def Let_def)
  show "map (mergeOne evs) basicList ! k \<in> set (mergePhase clock c evs (map (mergeOne evs) basicList))"
    using k by (simp add: set_mergePhase)
  show "isNew (map (mergeOne evs) basicList ! k)
            = Some (eid (map (mergeOne evs) basicList ! k) \<notin> eid ` set evs)"
    using k by (simp add: mergeOne_def Let_def existingEventsMap_None)
  show "companies (map (mergeOne evs) basicList ! k)
            = (case find (\<lambda>e. eid e = eid (map (mergeOne evs) basicList ! k)) (rev evs) of
                 Some e \<Rightarrow> companies e
               | None \<Rightarrow> [])"
    using k by (simp add: mergeOne_def Let_def existingEventsMap_find)
  {
    assume "eid (map (mergeOne evs) basicList ! k) \<notin> eid ` set evs"
    then have "existingEventsMap evs (eid m) = None"
      by (simp add: existingEventsMap_None m_def)
    then show "companies (map (mergeOne evs) basicList ! k) = []"
      using k by (simp add: m mergeOne_def Let_def)
  }
  {
    fix e
    assume d: "distinct (map eid evs)" and e: "e \<in> set evs"
      and i: "eid e = eid (map (mergeOne evs) basicList ! k)"
    from existingEventsMap_unique [OF d e] i
    have "existingEventsMap evs (eid m) = Some e" by (simp add: m_def)
    then show "companies (map (mergeOne evs) basicList ! k) = companies e"
      using k by (simp add: m mergeOne_def Let_def)
  }
qed

theorem phase1_isNew_and_companies_witness:
  "isNew (map (mergeOne sampleCatalog) sampleFresh ! 0) = Some False
   \<and> companies (map (mergeOne sampleCatalog) sampleFresh ! 0)
       = [sampleCompany ''Acme'', sampleCompany ''Beta'', sampleCompany ''Gamma'']
   \<and> isNew (map (mergeOne sampleCatalog) sampleFresh ! 1) = Some True
   \<and> companies (map (mergeOne sampleCatalog) sampleFresh ! 1) = []"
proof -
  have len: "0 < length sampleFresh" "1 < length sampleFresh"
    by (simp_all add: sampleFresh_def)
  have d: "distinct (map eid sampleCatalog)" by code_simp
  have old: "sampleCatalog ! 0 \<in> set sampleCatalog"
    "eid (sampleCatalog ! 0) = eid (map (mergeOne sampleCatalog) sampleFresh ! 0)"
    by code_simp+
  have known: "eid (map (mergeOne sampleCatalog) sampleFresh ! 0) \<in> eid ` set sampleCatalog"
    using old by (metis imageI)
  have new: "eid (map (mergeOne sampleCatalog) sampleFresh ! 1) \<notin> eid ` set sampleCatalog"
    by code_simp
  have cs: "companies (sampleCatalog ! 0)
              = [sampleCompany ''Acme'', sampleCompany ''Beta'', sampleCompany ''Gamma'']"
    by (simp add: sampleCatalog_def sampleEvent_def)
  note t = phase1_isNew_and_companies [of sampleCatalog sampleFresh sampleClock Singapore]
  from t len(1) known have "isNew (map (mergeOne sampleCatalog) sampleFresh ! 0) = Some False"
    by simp
  moreover from t len(1) d old
  have "companies (map (mergeOne sampleCatalog) sampleFresh ! 0) = companies (sampleCatalog ! 0)"
    by blast
  moreover from t len(2) new
  have "isNew (map (mergeOne sampleCatalog) sampleFresh ! 1) = Some True"
    by simp
  moreover from t len(2) new
  have "companies (map (mergeOne sampleCatalog) sampleFresh ! 1) = []"
    by blast
  ultimately show ?thesis by (simp add: cs)
qed


text \<open>
  C1 (as amended). After a merge phase the catalog holds the prior entries of the other
  countries and the working set of the run, and nothing else. It is sorted ascending by
  start time when every start date in it is a date. It has at most one entry per id
  exactly when the kept entries and the working set together have no id twice: the merge
  removes no entry because of its id.
\<close>

theorem mergePhase_sorted_and_ids:
  "((\<forall>e \<in> set (mergePhase clock c prev merged). clock (dateStart e) \<noteq> None) \<longrightarrow>
      sorted (map (\<lambda>e. the (clock (dateStart e))) (mergePhase clock c prev merged)))
   \<and> (distinct (map eid (mergePhase clock c prev merged))
        \<longleftrightarrow> distinct (map eid (filter (\<lambda>e. country e \<noteq> c) prev) @ map eid merged))
   \<and> set (mergePhase clock c prev merged) = {e \<in> set prev. country e \<noteq> c} \<union> set merged"
proof (intro conjI impI)
  assume "\<forall>e \<in> set (mergePhase clock c prev merged). clock (dateStart e) \<noteq> None"
  then have "\<forall>e \<in> set (filter (\<lambda>e. country e \<noteq> c) prev @ merged). clock (dateStart e) \<noteq> None"
    by (simp add: mergePhase_def Let_def set_sortJS)
  from sorted_sortJS [OF this]
  show "sorted (map (\<lambda>e. the (clock (dateStart e))) (mergePhase clock c prev merged))"
    by (simp add: mergePhase_def Let_def)
next
  show "distinct (map eid (mergePhase clock c prev merged))
        \<longleftrightarrow> distinct (map eid (filter (\<lambda>e. country e \<noteq> c) prev) @ map eid merged)"
    by (simp add: mergePhase_def Let_def distinct_map_sortJS)
next
  show "set (mergePhase clock c prev merged) = {e \<in> set prev. country e \<noteq> c} \<union> set merged"
    by (rule set_mergePhase)
qed


theorem mergePhase_sorted_and_ids_witness:
  "sorted (map (\<lambda>e. the (sampleClock (dateStart e)))
       (mergePhase sampleClock Singapore sampleCatalog (map (mergeOne sampleCatalog) sampleFresh)))
   \<and> distinct (map eid
       (mergePhase sampleClock Singapore sampleCatalog (map (mergeOne sampleCatalog) sampleFresh)))
   \<and> map name
       (mergePhase sampleClock Singapore sampleCatalog (map (mergeOne sampleCatalog) sampleFresh))
     = [''Tech Fair'', ''Auto Salon'', '' food EXPO '']"
proof -
  have v: "\<forall>e \<in> set (mergePhase sampleClock Singapore sampleCatalog
                 (map (mergeOne sampleCatalog) sampleFresh)). sampleClock (dateStart e) \<noteq> None"
    by code_simp
  have d: "distinct (map eid (filter (\<lambda>e. country e \<noteq> Singapore) sampleCatalog)
                     @ map eid (map (mergeOne sampleCatalog) sampleFresh))"
    by code_simp
  have n: "map name
       (mergePhase sampleClock Singapore sampleCatalog (map (mergeOne sampleCatalog) sampleFresh))
     = [''Tech Fair'', ''Auto Salon'', '' food EXPO '']"
    by code_simp
  from mergePhase_sorted_and_ids [of sampleClock Singapore sampleCatalog
         "map (mergeOne sampleCatalog) sampleFresh"] v d n
  show ?thesis by blast
qed

text \<open>
  Two runs that leave an id twice in the catalog: discovery returns the same event twice;
  discovery for Singapore returns an event that the catalog holds under Malaysia.
\<close>

theorem mergePhase_duplicate_ids_counterexample:
  "\<not> distinct (map eid (mergePhase sampleClock Singapore []
         (map (mergeOne []) [sampleBase ''Tech Fair'' ''2025-03-01'' Singapore,
                             sampleBase ''Tech Fair'' ''2025-03-01'' Singapore])))
   \<and> \<not> distinct (map eid (mergePhase sampleClock Singapore sampleCatalog
         (map (mergeOne sampleCatalog) [sampleBase ''Auto Salon'' ''2025-04-01'' Singapore])))"
  by code_simp



subsection \<open>Enrichment scheduler\<close>

lemma nth_update_cases:
  "xs[w := v] ! j = (if w = j \<and> w < length xs then v else xs ! j)"
  by (cases "w < length xs") (auto simp: nth_list_update list_update_beyond)

lemma schedInv_init: "schedInv merged (initSched merged)"
  by (simp add: schedInv_def initSched_def)

lemma schedInv_countProcessed:
  "schedInv merged s \<Longrightarrow> schedInv merged (countProcessed s)"
  by (simp add: schedInv_def countProcessed_def Let_def)

lemma schedInv_pop:
  assumes "schedInv merged s" and "processQueue s \<noteq> []"
  shows "schedInv merged (s\<lparr>processQueue := tl (processQueue s)\<rparr>)"
proof -
  from assms(2) obtain i rest where q: "processQueue s = i # rest"
    by (cases "processQueue s") auto
  with assms(1) show ?thesis
    by (auto simp: schedInv_def)
qed

lemma schedInv_finish:
  assumes "schedInv merged s"
  shows "schedInv merged (s\<lparr>workers := (workers s)[w := Finished]\<rparr>)"
  using assms by (auto simp: schedInv_def nth_update_cases split: if_splits)

lemma schedInv_call:
  assumes "schedInv merged s" and "processQueue s \<noteq> []"
    and "companies (working s ! hd (processQueue s)) = []"
  shows "schedInv merged
           (s\<lparr>processQueue := tl (processQueue s),
              enrichCalls := enrichCalls s @ [hd (processQueue s)],
              workers := (workers s)[w := Awaiting (hd (processQueue s))]\<rparr>)"
proof -
  from assms(2) obtain i rest where q: "processQueue s = i # rest"
    by (cases "processQueue s") auto
  with assms(1,3) show ?thesis
    by (auto simp: schedInv_def nth_update_cases split: if_splits)
qed

lemma schedInv_workerLoop:
  "schedInv merged s \<Longrightarrow> schedInv merged (workerLoop w s)"
proof (induction w s rule: workerLoop.induct)
  case (1 w s)
  show ?case
  proof (cases "processQueue s = []")
    case True
    with "1.prems" show ?thesis
      by (subst workerLoop.simps) (simp add: schedInv_finish)
  next
    case False
    define i where "i = hd (processQueue s)"
    define s1 where "s1 = s\<lparr>processQueue := tl (processQueue s)\<rparr>"
    show ?thesis
    proof (cases "companies (working s1 ! i) = []")
      case True
      then have "companies (working s ! hd (processQueue s)) = []"
        by (simp add: s1_def i_def)
      from schedInv_call [OF "1.prems" False this, of w] True False show ?thesis
        by (subst workerLoop.simps) (simp add: Let_def s1_def i_def)
    next
      case nonempty: False
      have "schedInv merged (countProcessed s1)"
        unfolding s1_def by (intro schedInv_countProcessed schedInv_pop "1.prems" False)
      from "1.IH" [OF False i_def s1_def nonempty this] nonempty False show ?thesis
        by (subst workerLoop.simps) (simp add: Let_def s1_def i_def)
    qed
  qed
qed

lemma schedInv_store:
  assumes "schedInv merged s" and "w < length (workers s)" and "workers s ! w = Awaiting i"
  shows "schedInv merged (s\<lparr>working := (working s)[i := (working s ! i)\<lparr>companies := cs\<rparr>]\<rparr>)"
proof -
  from assms have "i \<in> set (enrichCalls s)" by (auto simp: schedInv_def)
  with assms(1) have "i \<notin> set (processQueue s)" by (auto simp: schedInv_def)
  with assms(1) show ?thesis
    by (auto simp: schedInv_def nth_update_cases)
qed

lemma schedInv_resume:
  assumes "schedInv merged s"
  shows "schedInv merged (resume apiKey w response s)"
proof (cases "w < length (workers s)")
  case False
  with assms show ?thesis by (simp add: resume_def)
next
  case True
  show ?thesis
  proof (cases "workers s ! w")
    case NotStarted
    with assms True show ?thesis by (simp add: resume_def)
  next
    case Finished
    with assms True show ?thesis by (simp add: resume_def)
  next
    case (Awaiting i)
    show ?thesis
    proof (cases "enrichEventDetails apiKey response")
      case (Inl e)
      with assms True Awaiting show ?thesis
        by (simp add: resume_def schedInv_workerLoop schedInv_countProcessed)
    next
      case (Inr cs)
      from schedInv_store [OF assms True Awaiting, of cs] True Awaiting Inr show ?thesis
        by (simp add: resume_def schedInv_workerLoop schedInv_countProcessed)
    qed
  qed
qed

lemma foldl_invariant:
  assumes "\<And>s x. P s \<Longrightarrow> P (f s x)" and "P s"
  shows "P (foldl f s xs)"
  using assms(2) by (induction xs arbitrary: s) (simp_all add: assms(1))

lemma schedInv_startWorkers: "schedInv merged (startWorkers merged)"
  unfolding startWorkers_def
  by (rule foldl_invariant) (simp_all add: schedInv_workerLoop schedInv_init)

lemma schedInv_runScheduler: "schedInv merged (runScheduler apiKey schedule merged)"
  unfolding runScheduler_def
  by (rule foldl_invariant) (auto simp: schedInv_resume schedInv_startWorkers)


text \<open>
  C4. In every run of the scheduler, that is for every order in which the awaited calls
  settle and whatever the backend answers, each event of the working set is given to the
  shallow enrichment at most once (\<open>enrichCalls\<close> lists no event twice), and an event
  whose companies list is not empty when the queue is seeded is never given to it.
\<close>

theorem scheduler_enriches_at_most_once:
  "distinct (enrichCalls (runScheduler apiKey schedule merged))
   \<and> (\<forall>i \<in> set (enrichCalls (runScheduler apiKey schedule merged)). i < length merged)
   \<and> (\<forall>i < length merged. companies (merged ! i) \<noteq> []
         \<longrightarrow> i \<notin> set (enrichCalls (runScheduler apiKey schedule merged)))"
  using schedInv_runScheduler [of merged apiKey schedule]
  by (auto simp: schedInv_def)

theorem scheduler_enriches_at_most_once_witness:
  "enrichCalls (runScheduler (Some ''key'') sampleSchedule sampleWorking) = [0, 2, 3, 4]
   \<and> distinct (enrichCalls (runScheduler (Some ''key'') sampleSchedule sampleWorking))
   \<and> 1 \<notin> set (enrichCalls (runScheduler (Some ''key'') sampleSchedule sampleWorking))"
proof -
  have c: "enrichCalls (runScheduler (Some ''key'') sampleSchedule sampleWorking) = [0, 2, 3, 4]"
    by code_simp
  have h: "1 < length sampleWorking" "companies (sampleWorking ! 1) \<noteq> []"
    by (simp_all add: sampleWorking_def sampleEvent_def)
  from scheduler_enriches_at_most_once [of "Some ''key''" sampleSchedule sampleWorking] h
  have "distinct (enrichCalls (runScheduler (Some ''key'') sampleSchedule sampleWorking))
        \<and> 1 \<notin> set (enrichCalls (runScheduler (Some ''key'') sampleSchedule sampleWorking))"
    by blast
  with c show ?thesis by blast
qed







subsection \<open>The discovery run\<close>

text \<open>
  C8. If list discovery fails or returns no event, the run ends with the failure recorded
  for the caller (the gateway's error, or \<open>NoEventsFound\<close>); the catalog and the stored
  catalog are as before and no event was given to the enrichment. A failing backend call
  makes list discovery fail.
\<close>

theorem handleSearch_aborts_without_events:
  assumes "searchEventList apiKey c listResponse = Inl e
           \<or> searchEventList apiKey c listResponse = Inr []"
  shows "events (fst (handleSearch clock apiKey c listResponse schedule app)) = events app
         \<and> storage (fst (handleSearch clock apiKey c listResponse schedule app)) = storage app
         \<and> failure (fst (handleSearch clock apiKey c listResponse schedule app))
             = Some (case searchEventList apiKey c listResponse of
                       Inl err \<Rightarrow> err
                     | Inr basicList \<Rightarrow> NoEventsFound)
         \<and> loading (fst (handleSearch clock apiKey c listResponse schedule app)) = False
         \<and> snd (handleSearch clock apiKey c listResponse schedule app) = []
         \<and> (\<exists>err. searchEventList apiKey c (Failed msg) = Inl err)"
  using assms
  by (auto simp: handleSearch_def Let_def searchEventList_def split: sum.splits)

theorem handleSearch_aborts_without_events_witness:
  "handleSearch sampleClock (Some ''key'') Singapore (Failed ''timeout'') sampleSchedule sampleApp
     = (sampleApp\<lparr>failure := Some (BackendFailure ''timeout''), progress := 0\<rparr>, [])
   \<and> events (fst (handleSearch sampleClock (Some ''key'') Singapore (Failed ''timeout'')
                    sampleSchedule sampleApp)) = sampleCatalog
   \<and> events (fst (handleSearch sampleClock (Some ''key'') Singapore (Reply NotArray)
                    sampleSchedule sampleApp)) = sampleCatalog
   \<and> storage (fst (handleSearch sampleClock (Some ''key'') Singapore (Reply (Items []))
                    sampleSchedule sampleApp)) = [sampleCatalog]"
proof -
  have a: "searchEventList (Some ''key'') Singapore (Failed ''timeout'') = Inl (BackendFailure ''timeout'')
       \<or> searchEventList (Some ''key'') Singapore (Failed ''timeout'') = Inr []"
    by (simp add: searchEventList_def truthy_def)
  have b: "searchEventList (Some ''key'') Singapore (Reply NotArray) = Inl e
       \<or> searchEventList (Some ''key'') Singapore (Reply NotArray) = Inr []" for e
    by (simp add: searchEventList_def truthy_def)
  have c: "searchEventList (Some ''key'') Singapore (Reply (Items [])) = Inl e
       \<or> searchEventList (Some ''key'') Singapore (Reply (Items [])) = Inr []" for e
    by (simp add: searchEventList_def truthy_def)
  have d: "handleSearch sampleClock (Some ''key'') Singapore (Failed ''timeout'') sampleSchedule sampleApp
     = (sampleApp\<lparr>failure := Some (BackendFailure ''timeout''), progress := 0\<rparr>, [])"
    by (simp add: handleSearch_def searchEventList_def truthy_def sampleApp_def)
  from handleSearch_aborts_without_events [OF a, of sampleClock sampleSchedule sampleApp]
       handleSearch_aborts_without_events [OF b, of sampleClock sampleSchedule sampleApp]
       handleSearch_aborts_without_events [OF c, of sampleClock sampleSchedule sampleApp]
       d
  show ?thesis by (simp add: sampleApp_def)
qed


subsection \<open>Deep search after a nameless exhibitor\<close>

text \<open>
  C10 (fails on the code). Shallow enrichment turns an exhibitor record without a
  \<open>name\<close> into a company whose name is undefined; the dedup/append operation on an event
  holding such a company raises a \<open>TypeError\<close>, whatever the batch. The last two
  conjuncts run discovery for one new event, with that answer to its enrichment, and then
  the deep search of the event.
\<close>

theorem deepSearch_raises_on_nameless_company:
  "enrichEventDetails (Some ''key'') namelessReply
     = Inr [\<lparr>cname = None, email = Some ''info@example.com'', contact = None,
             role = ''Exhibitor''\<rparr>]
   \<and> dedupAppend [\<lparr>cname = None, email = Some ''info@example.com'', contact = None,
                    role = ''Exhibitor''\<rparr>] [] = Inl TypeError
   \<and> map companies (events (fst (handleSearch sampleClock (Some ''key'') Singapore
        (Reply (Items [sampleItem ''Tech Fair'' ''2025-04-01'' None])) [(0, namelessReply)]
        sampleApp)))
       = [Nil, [\<lparr>cname = None, email = Some ''info@example.com'', contact = None,
                 role = ''Exhibitor''\<rparr>]]
   \<and> deepSearchMerge (generateEventId ''Tech Fair'' ''2025-04-01'') [sampleCompany ''Beta'']
        (events (fst (handleSearch sampleClock (Some ''key'') Singapore
           (Reply (Items [sampleItem ''Tech Fair'' ''2025-04-01'' None])) [(0, namelessReply)]
           sampleApp)))
       = Inl TypeError"
  by code_simp



subsection \<open>Event identity\<close>


























end
